theory Spec2Isabelle
  imports Complex_Main "HOL-Library.Sublist"
begin

section \<open>ChainWatch: the transfer filter, the notifier, the listener and the config watcher\<close>

text \<open>
  A shallow embedding of the event pipeline of ChainWatch:
  \<^item> \<open>TransferFilter\<close> (\<open>src/analytics/categorizer.js\<close>): duplicate, threshold,
    watch-list and cooldown checks over a seen-set and a per-address cooldown map;
  \<^item> \<open>TelegramNotifier.sendAlert\<close> (same file): the retry loop;
  \<^item> \<open>BlockchainListener.attemptReconnect\<close> (\<open>src/listener.js\<close>);
  \<^item> \<open>ConfigWatcher.loadConfig\<close> (\<open>src/core/alertRules.js\<close>);
  \<^item> the \<open>transfer\<close> handler of \<open>ChainWatch.setupEventHandlers\<close> (\<open>src/index.js\<close>).

  Mutable objects become records that are passed in and returned. What the JavaScript
  runtime and the outside world answer (the clock, the number a text parses to, the
  outcome of a network call, the content of the config file) is an input of the model.
\<close>

subsection \<open>JavaScript numbers and strings\<close>

text \<open>
  The value of \<open>parseFloat(x)\<close>: not-a-number, an infinity, or a finite double, which
  is a real number. Comparison of doubles is exact, so \<open><\<close> on the real values is
  the comparison the engine makes. Positive and negative zero are both \<open>Fin 0\<close>: they
  compare equal and both are falsy.
\<close>

datatype jsnum = NaN | NegInf | Fin real | PosInf

text \<open>The relational operator \<open>a < b\<close> on numbers: false whenever an operand is \<open>NaN\<close>.\<close>

fun js_lt :: "jsnum \<Rightarrow> jsnum \<Rightarrow> bool" where
  "js_lt NaN _ = False"
| "js_lt _ NaN = False"
| "js_lt _ NegInf = False"
| "js_lt NegInf _ = True"
| "js_lt PosInf _ = False"
| "js_lt (Fin a) (Fin b) = (a < b)"
| "js_lt (Fin a) PosInf = True"

text \<open>The relational operator \<open>a >= b\<close>: false with a \<open>NaN\<close> operand, else \<open>b \<le> a\<close>.\<close>

fun js_ge :: "jsnum \<Rightarrow> jsnum \<Rightarrow> bool" where
  "js_ge NaN _ = False"
| "js_ge _ NaN = False"
| "js_ge _ NegInf = True"
| "js_ge NegInf _ = False"
| "js_ge PosInf _ = True"
| "js_ge (Fin a) (Fin b) = (b \<le> a)"
| "js_ge (Fin a) PosInf = False"

text \<open>\<open>x || 0\<close> on a number: \<open>NaN\<close> and zero are falsy and give \<open>0\<close>.\<close>

fun or_zero :: "jsnum \<Rightarrow> jsnum" where
  "or_zero NaN = Fin 0"
| "or_zero (Fin a) = (if a = 0 then Fin 0 else Fin a)"
| "or_zero x = x"

text \<open>
  \<open>parseInt(x) || 0\<close>: \<open>parseInt\<close> gives an integer or \<open>NaN\<close> (\<open>None\<close>); \<open>NaN\<close> and
  \<open>0\<close> are falsy.
\<close>

fun int_or_zero :: "int option \<Rightarrow> int" where
  "int_or_zero None = 0"
| "int_or_zero (Some n) = n"

text \<open>
  \<open>String.prototype.toLowerCase\<close> on the characters an address is made of: the
  letters \<open>A\<close> to \<open>Z\<close> go to \<open>a\<close> to \<open>z\<close>, every other character stays.
\<close>

definition lower_char :: "char \<Rightarrow> char" where
  "lower_char c =
     (case map_of (zip ''ABCDEFGHIJKLMNOPQRSTUVWXYZ'' ''abcdefghijklmnopqrstuvwxyz'') c of
        None \<Rightarrow> c
      | Some l \<Rightarrow> l)"

definition toLowerCase :: "string \<Rightarrow> string" where
  "toLowerCase s = map lower_char s"

text \<open>\<open>s.includes(pat)\<close>: \<open>pat\<close> occurs in \<open>s\<close> as a contiguous run.\<close>

fun str_includes :: "string \<Rightarrow> string \<Rightarrow> bool" where
  "str_includes [] pat = (pat = [])"
| "str_includes (c # cs) pat = (prefix pat (c # cs) \<or> str_includes cs pat)"

subsection \<open>The transfer filter\<close>

text \<open>
  A watched wallet of the configuration: a plain address string, or an object with an
  \<open>address\<close> and an optional \<open>enabled\<close> field (\<open>None\<close> when the field is absent).
\<close>

datatype wallet = WString string | WObject string "bool option"

text \<open>
  The fields of the configuration the filter reads. \<open>thresholdAmount\<close> is the number
  \<open>parseFloat(config.thresholdAmount)\<close>, \<open>cooldownSeconds\<close> the integer
  \<open>parseInt(config.cooldownSeconds)\<close> (\<open>None\<close> for \<open>NaN\<close>); \<open>watchedWallets\<close> is \<open>None\<close>
  when the field is missing.
\<close>

record config =
  thresholdAmount :: jsnum
  watchedWallets :: "wallet list option"
  cooldownSeconds :: "int option"

text \<open>
  A transfer event as the filter reads it. \<open>amount\<close> is the number
  \<open>parseFloat(event.amount)\<close>.
\<close>

record event =
  transactionHash :: string
  from_addr :: string
  to_addr :: string
  amount :: jsnum

datatype reason = duplicate | below_threshold | not_watched | cooldown | matched

text \<open>
  What a single check returns: \<open>{passed: true}\<close> or \<open>{passed: false, reason, message}\<close>.
  The \<open>message\<close> text is for the log only and is left out.
\<close>

datatype check_result = CheckPassed | CheckFailed reason

text \<open>The verdict \<open>filter\<close> returns.\<close>

record verdict =
  passed :: bool
  showInUI :: bool
  reason :: reason

text \<open>
  The filter object: its configuration, the seen-set \<open>processedTxHashes\<close> (a JavaScript
  \<open>Set\<close>, kept as the list of its members in insertion order), the cooldown map
  \<open>lastAlertTime\<close> from lower-cased address to the millisecond timestamp of its last
  alert, and \<open>maxCacheSize\<close>.
\<close>

record filter_state =
  fconfig :: config
  processedTxHashes :: "string list"
  lastAlertTime :: "string \<rightharpoonup> int"
  maxCacheSize :: nat

definition new_TransferFilter :: "config \<Rightarrow> filter_state" where
  "new_TransferFilter cfg =
     \<lparr>fconfig = cfg, processedTxHashes = [], lastAlertTime = Map.empty, maxCacheSize = 10000\<rparr>"

definition isDuplicate :: "filter_state \<Rightarrow> string \<Rightarrow> bool" where
  "isDuplicate s txHash = (txHash \<in> set (processedTxHashes s))"

text \<open>\<open>Set.prototype.add\<close>: a member keeps its place, a new value goes last.\<close>

definition set_add :: "string list \<Rightarrow> string \<Rightarrow> string list" where
  "set_add hs h = (if h \<in> set hs then hs else hs @ [h])"

definition markProcessed :: "filter_state \<Rightarrow> string \<Rightarrow> filter_state" where
  "markProcessed s txHash =
     (let hs = processedTxHashes s;
          hs' = (if length hs \<ge> maxCacheSize s
                 then (let toDelete = take 1000 hs in filter (\<lambda>h. h \<notin> set toDelete) hs)
                 else hs)
      in s\<lparr>processedTxHashes := set_add hs' txHash\<rparr>)"

definition checkThreshold :: "filter_state \<Rightarrow> jsnum \<Rightarrow> check_result" where
  "checkThreshold s amt =
     (let threshold = or_zero (thresholdAmount (fconfig s));
          eventAmount = amt
      in if js_lt eventAmount threshold then CheckFailed below_threshold else CheckPassed)"

text \<open>The \<open>filter\<close> and \<open>map\<close> callbacks of \<open>checkWatchedWallets\<close>.\<close>

fun wallet_enabled :: "wallet \<Rightarrow> bool" where
  "wallet_enabled (WString a) = True"
| "wallet_enabled (WObject a en) = (en \<noteq> Some False)"

fun wallet_address :: "wallet \<Rightarrow> string" where
  "wallet_address (WString a) = a"
| "wallet_address (WObject a en) = a"

definition checkWatchedWallets :: "filter_state \<Rightarrow> string \<Rightarrow> string \<Rightarrow> check_result" where
  "checkWatchedWallets s frm to =
     (let watched = (case watchedWallets (fconfig s) of None \<Rightarrow> [] | Some ws \<Rightarrow> ws)
      in if length watched = 0 then CheckPassed
         else
           (let normalizedFrom = toLowerCase frm;
                normalizedTo = toLowerCase to;
                normalizedWatched =
                  map (\<lambda>w. toLowerCase (wallet_address w)) (filter wallet_enabled watched);
                fromWatched = (normalizedFrom \<in> set normalizedWatched);
                toWatched = (normalizedTo \<in> set normalizedWatched)
            in if \<not> fromWatched \<and> \<not> toWatched then CheckFailed not_watched
               else CheckPassed))"

text \<open>
  One turn of the loop of \<open>checkCooldown\<close>: \<open>lastAlert && (now - lastAlert) < cooldownMs\<close>.
  A missing entry and the timestamp \<open>0\<close> are falsy.
\<close>

definition in_cooldown :: "filter_state \<Rightarrow> int \<Rightarrow> int \<Rightarrow> string \<Rightarrow> bool" where
  "in_cooldown s now cooldownMs addr =
     (case lastAlertTime s addr of
        None \<Rightarrow> False
      | Some lastAlert \<Rightarrow> lastAlert \<noteq> 0 \<and> now - lastAlert < cooldownMs)"

text \<open>\<open>now\<close> is what \<open>Date.now()\<close> returns inside the call.\<close>

definition checkCooldown :: "filter_state \<Rightarrow> int \<Rightarrow> string \<Rightarrow> string \<Rightarrow> check_result" where
  "checkCooldown s now frm to =
     (let cooldownSecs = int_or_zero (cooldownSeconds (fconfig s))
      in if cooldownSecs = 0 then CheckPassed
         else
           (let cooldownMs = cooldownSecs * 1000;
                addresses = [toLowerCase frm, toLowerCase to]
            in if list_ex (in_cooldown s now cooldownMs) addresses
               then CheckFailed cooldown
               else CheckPassed))"

definition updateCooldown :: "filter_state \<Rightarrow> int \<Rightarrow> string \<Rightarrow> string \<Rightarrow> filter_state" where
  "updateCooldown s now frm to =
     (let m1 = (lastAlertTime s)(toLowerCase frm \<mapsto> now);
          m2 = m1(toLowerCase to \<mapsto> now);
          oneHourAgo = now - 3600000
      in s\<lparr>lastAlertTime :=
             (\<lambda>addr. case m2 addr of
                        None \<Rightarrow> None
                      | Some t \<Rightarrow> if t < oneHourAgo then None else Some t)\<rparr>)"

text \<open>
  \<open>TransferFilter.filter\<close>. \<open>now_c\<close> and \<open>now_u\<close> are the two readings of the clock, in
  \<open>checkCooldown\<close> and in \<open>updateCooldown\<close>. The result is the filter after the call
  and the verdict.
\<close>

definition TransferFilter_filter ::
    "filter_state \<Rightarrow> event \<Rightarrow> int \<Rightarrow> int \<Rightarrow> filter_state \<times> verdict" where
  "TransferFilter_filter s e now_c now_u =
     (if isDuplicate s (transactionHash e)
      then (s, \<lparr>passed = False, showInUI = False, reason = duplicate\<rparr>)
      else
        (let s1 = markProcessed s (transactionHash e)
         in case checkThreshold s1 (amount e) of
              CheckFailed r \<Rightarrow> (s1, \<lparr>passed = False, showInUI = True, reason = r\<rparr>)
            | CheckPassed \<Rightarrow>
                (case checkWatchedWallets s1 (from_addr e) (to_addr e) of
                   CheckFailed r \<Rightarrow> (s1, \<lparr>passed = False, showInUI = True, reason = r\<rparr>)
                 | CheckPassed \<Rightarrow>
                     (case checkCooldown s1 now_c (from_addr e) (to_addr e) of
                        CheckFailed r \<Rightarrow> (s1, \<lparr>passed = False, showInUI = True, reason = r\<rparr>)
                      | CheckPassed \<Rightarrow>
                          (updateCooldown s1 now_u (from_addr e) (to_addr e),
                           \<lparr>passed = True, showInUI = True, reason = matched\<rparr>)))))"

text \<open>Feeding a list of events, each with its two clock readings, through the filter.\<close>

fun filter_all :: "filter_state \<Rightarrow> (event \<times> int \<times> int) list \<Rightarrow> filter_state" where
  "filter_all s [] = s"
| "filter_all s ((e, tc, tu) # es) = filter_all (fst (TransferFilter_filter s e tc tu)) es"

text \<open>
  The hash \<open>h\<close> stays in the seen-set while the events \<open>es\<close> go through the filter:
  no eviction in between removes it.
\<close>

fun survives :: "string \<Rightarrow> filter_state \<Rightarrow> (event \<times> int \<times> int) list \<Rightarrow> bool" where
  "survives h s [] = True"
| "survives h s ((e, tc, tu) # es) =
     (let s' = fst (TransferFilter_filter s e tc tu)
      in h \<in> set (processedTxHashes s') \<and> survives h s' es)"

subsection \<open>The Telegram notifier\<close>

text \<open>
  The error \<open>bot.sendMessage\<close> rejects with: its \<open>message\<close> and \<open>code\<close>, \<open>None\<close> when
  the property is absent. \<open>a || b\<close> on texts skips the absent and the empty one.
\<close>

record js_error =
  err_message :: "string option"
  err_code :: "string option"

fun str_or :: "string option \<Rightarrow> string \<Rightarrow> string" where
  "str_or None d = d"
| "str_or (Some m) d = (if m = [] then d else m)"

definition errorMsg :: "js_error \<Rightarrow> string" where
  "errorMsg err = str_or (err_message err) (str_or (err_code err) ''Unknown error'')"

definition isNetworkError :: "string \<Rightarrow> bool" where
  "isNetworkError msg =
     (str_includes msg ''ECONNRESET'' \<or> str_includes msg ''ETIMEDOUT'' \<or>
      str_includes msg ''ENOTFOUND'' \<or> str_includes msg ''socket hang up'' \<or>
      str_includes msg ''network'')"

text \<open>The delay in milliseconds before the next attempt.\<close>

definition retry_delay :: "bool \<Rightarrow> nat \<Rightarrow> nat" where
  "retry_delay networkError attempt =
     (if networkError then 2 ^ attempt * 1000 else 2 ^ (attempt - 1) * 1000)"

text \<open>What one call of \<open>bot.sendMessage\<close> does, and what the notifier does to the world.\<close>

datatype send_outcome = Delivered | Rejected js_error

datatype notifier_action = SendMessage nat | Sleep nat

datatype alert_result = AlertSuccess | AlertFailure string

record notifier_state =
  isEnabled :: bool
  bot :: bool
  alertCount :: nat
  lastAlertSent :: "(int \<times> string) option"

text \<open>
  The \<open>for\<close> loop of \<open>sendAlert\<close>, from \<open>attempt\<close> on. \<open>send k\<close> is the outcome of the
  \<open>k\<close>-th call of \<open>bot.sendMessage\<close>; \<open>acts\<close> collects the calls and the waits. The result
  says whether a call succeeded.
\<close>

function sendAlert_loop ::
    "(nat \<Rightarrow> send_outcome) \<Rightarrow> nat \<Rightarrow> nat \<Rightarrow> notifier_action list \<Rightarrow> bool \<times> notifier_action list"
where
  "sendAlert_loop send retries attempt acts =
     (if attempt \<le> retries
      then (case send attempt of
              Delivered \<Rightarrow> (True, acts @ [SendMessage attempt])
            | Rejected err \<Rightarrow>
                sendAlert_loop send retries (attempt + 1)
                  (if attempt < retries
                   then acts @ [SendMessage attempt,
                                Sleep (retry_delay (isNetworkError (errorMsg err)) attempt)]
                   else acts @ [SendMessage attempt]))
      else (False, acts))"
  by pat_completeness auto
termination
  by (relation "measure (\<lambda>(send, retries, attempt, acts). Suc retries - attempt)") auto

text \<open>
  \<open>sendAlert(event, retries)\<close>; \<open>now\<close> is the clock at the successful call. The result
  is the notifier after the call, the value returned and the actions taken.
\<close>

definition sendAlert ::
    "notifier_state \<Rightarrow> event \<Rightarrow> int \<Rightarrow> (nat \<Rightarrow> send_outcome) \<Rightarrow> nat
      \<Rightarrow> notifier_state \<times> alert_result \<times> notifier_action list" where
  "sendAlert n e now send retries =
     (if \<not> isEnabled n \<or> \<not> bot n then (n, AlertFailure ''disabled'', [])
      else
        (case sendAlert_loop send retries 1 [] of
           (True, acts) \<Rightarrow>
             (n\<lparr>lastAlertSent := Some (now, transactionHash e), alertCount := alertCount n + 1\<rparr>,
              AlertSuccess, acts)
         | (False, acts) \<Rightarrow> (n, AlertFailure ''max_retries_exceeded'', acts)))"

text \<open>The default of the parameter \<open>retries\<close>, which is what every caller uses.\<close>

definition default_retries :: nat where
  "default_retries = 5"

subsection \<open>The blockchain listener\<close>

datatype conn_status = StatusConnected | StatusDisconnected | StatusError | StatusFailed

text \<open>What the listener does to the world: a \<open>connection\<close> event, or a timer for \<open>connect\<close>.\<close>

datatype listener_effect = Emit conn_status | ScheduleReconnect nat

record listener_state =
  isConnected :: bool
  reconnectAttempts :: nat
  maxReconnectAttempts :: nat
  reconnectDelay :: nat

definition new_BlockchainListener :: listener_state where
  "new_BlockchainListener =
     \<lparr>isConnected = False, reconnectAttempts = 0, maxReconnectAttempts = 10,
      reconnectDelay = 5000\<rparr>"

definition attemptReconnect :: "listener_state \<Rightarrow> listener_state \<times> listener_effect list" where
  "attemptReconnect s =
     (if reconnectAttempts s \<ge> maxReconnectAttempts s then (s, [Emit StatusFailed])
      else
        (let s' = s\<lparr>reconnectAttempts := reconnectAttempts s + 1\<rparr>;
             delay = reconnectDelay s' * reconnectAttempts s'
         in (s', [ScheduleReconnect delay])))"

text \<open>
  What reaches the listener: the socket opens, the socket closes, the socket reports an
  error, or \<open>connect\<close> throws and runs its \<open>catch\<close> branch.
\<close>

datatype listener_event = WsOpen | WsClose | WsError | ConnectThrows

fun listener_step :: "listener_state \<Rightarrow> listener_event \<Rightarrow> listener_state \<times> listener_effect list" where
  "listener_step s WsOpen =
     (s\<lparr>isConnected := True, reconnectAttempts := 0\<rparr>, [Emit StatusConnected])"
| "listener_step s WsClose =
     (let (s', fx) = attemptReconnect (s\<lparr>isConnected := False\<rparr>)
      in (s', Emit StatusDisconnected # fx))"
| "listener_step s WsError = (s, [Emit StatusError])"
| "listener_step s ConnectThrows =
     (let (s', fx) = attemptReconnect s in (s', Emit StatusError # fx))"

text \<open>A run: the effects of each event in turn.\<close>

fun listener_run ::
    "listener_state \<Rightarrow> listener_event list \<Rightarrow> listener_state \<times> listener_effect list list" where
  "listener_run s [] = (s, [])"
| "listener_run s (ev # evs) =
     (let (s1, fx) = listener_step s ev; (s2, fxs) = listener_run s1 evs in (s2, fx # fxs))"

text \<open>A connection failure is what calls \<open>attemptReconnect\<close>.\<close>

fun is_failure :: "listener_event \<Rightarrow> bool" where
  "is_failure WsClose = True"
| "is_failure ConnectThrows = True"
| "is_failure _ = False"

subsection \<open>The config watcher\<close>

datatype json =
  JNull | JBool bool | JNum real | JStr string | JArr "json list" | JObj "(string \<times> json) list"

fun truthy :: "json \<Rightarrow> bool" where
  "truthy JNull = False"
| "truthy (JBool b) = b"
| "truthy (JNum x) = (x \<noteq> 0)"
| "truthy (JStr t) = (t \<noteq> [])"
| "truthy (JArr xs) = True"
| "truthy (JObj fs) = True"

text \<open>\<open>config[key]\<close> on a value that is not \<open>null\<close>; \<open>None\<close> is \<open>undefined\<close>.\<close>

fun get_prop :: "json \<Rightarrow> string \<Rightarrow> json option" where
  "get_prop (JObj fs) key = map_of fs key"
| "get_prop _ key = None"

text \<open>\<open>config[key] = config[key] ?? d\<close> on an object.\<close>

fun with_default :: "string \<Rightarrow> json \<Rightarrow> json \<Rightarrow> json" where
  "with_default key d (JObj fs) =
     (case map_of fs key of
        None \<Rightarrow> JObj (fs @ [(key, d)])
      | Some JNull \<Rightarrow> JObj (map (\<lambda>(k, v). if k = key then (k, d) else (k, v)) fs)
      | Some v \<Rightarrow> JObj fs)"
| "with_default key d c = c"

datatype config_error = TypeError | MissingFields "string list"

definition required :: "string list" where
  "required = [''tokenContract'']"

definition validateConfig :: "json \<Rightarrow> config_error + json" where
  "validateConfig c =
     (if c = JNull then Inl TypeError
      else
        (let missing =
               filter (\<lambda>key. \<not> (case get_prop c key of None \<Rightarrow> False | Some v \<Rightarrow> truthy v))
                 required
         in if length missing > 0 then Inl (MissingFields missing)
            else Inr (with_default ''confirmationDepth'' (JNum 0)
                       (with_default ''telegramChatId'' (JStr [])
                         (with_default ''cooldownSeconds'' (JNum 0)
                           (with_default ''watchedWallets'' (JArr [])
                             (with_default ''thresholdAmount'' (JNum 0) c)))))))"

text \<open>
  What reading the config file gives: \<open>existsSync\<close> is false, or \<open>readFileSync\<close> or
  \<open>JSON.parse\<close> throws, or \<open>JSON.parse\<close> returns a value.
\<close>

datatype file_read = NotFound | Unparseable | Parsed json

text \<open>The watcher: \<open>this.config\<close>, \<open>None\<close> for \<open>null\<close>.\<close>

record watcher_state =
  wconfig :: "json option"

text \<open>\<open>loadConfig\<close>: the watcher after the call and the value returned.\<close>

definition loadConfig :: "watcher_state \<Rightarrow> file_read \<Rightarrow> watcher_state \<times> json option" where
  "loadConfig w f =
     (case f of
        NotFound \<Rightarrow> (w, None)
      | Unparseable \<Rightarrow> (w, wconfig w)
      | Parsed c \<Rightarrow>
          (case validateConfig c of
             Inl err \<Rightarrow> (w, wconfig w)
           | Inr c' \<Rightarrow> (w\<lparr>wconfig := Some c'\<rparr>, Some c')))"

text \<open>
  The timer callback of \<open>handleConfigChange\<close>: the watcher after the call and, when a
  \<open>configChange\<close> event is emitted, its \<open>newConfig\<close>, which the filter, the listener and
  the notifier take as their configuration.
\<close>

definition handleConfigChange :: "watcher_state \<Rightarrow> file_read \<Rightarrow> watcher_state \<times> json option" where
  "handleConfigChange w f =
     (let (w', newConfig) = loadConfig w f
      in case newConfig of None \<Rightarrow> (w', None) | Some c \<Rightarrow> (w', Some c))"

text \<open>The reload fails: the three ways the claim names.\<close>

fun reload_fails :: "file_read \<Rightarrow> bool" where
  "reload_fails NotFound = True"
| "reload_fails Unparseable = True"
| "reload_fails (Parsed c) =
     (case get_prop c ''tokenContract'' of None \<Rightarrow> True | Some v \<Rightarrow> \<not> truthy v)"

subsection \<open>The transfer handler\<close>

text \<open>
  The calls the handler makes on the sinks behind the in-memory list: \<open>storage.addEvent\<close>,
  \<open>wsServer.broadcastTransfer\<close>, \<open>notifier.sendAlert\<close> and \<open>wsServer.broadcastAlertSent\<close>.
\<close>

datatype sink_call =
  StorageAdd event | BroadcastTransfer event verdict | SendAlert event | BroadcastAlertSent string

record app_state =
  afilter :: filter_state
  recentEvents :: "event list"
  sink_calls :: "sink_call list"

definition MAX_RECENT_EVENTS :: nat where
  "MAX_RECENT_EVENTS = 100"

text \<open>
  The \<open>transfer\<close> handler of \<open>setupEventHandlers\<close>. \<open>alert_ok\<close> is the \<open>success\<close> field of
  what \<open>sendAlert\<close> returns. Category, price and rule lookups only decorate the event
  and are left out.
\<close>

definition transfer_handler :: "app_state \<Rightarrow> event \<Rightarrow> int \<Rightarrow> int \<Rightarrow> bool \<Rightarrow> app_state" where
  "transfer_handler a e now_c now_u alert_ok =
     (let (f', filterResult) = TransferFilter_filter (afilter a) e now_c now_u;
          a1 = a\<lparr>afilter := f'\<rparr>
      in if reason filterResult = duplicate then a1
         else if \<not> passed filterResult then a1
         else
           (let pushed = recentEvents a1 @ [e];
                recent = (if length pushed > MAX_RECENT_EVENTS then tl pushed else pushed);
                calls = sink_calls a1 @ [StorageAdd e, BroadcastTransfer e filterResult, SendAlert e]
                          @ (if alert_ok then [BroadcastAlertSent (transactionHash e)] else [])
            in a1\<lparr>recentEvents := recent, sink_calls := calls\<rparr>))"

subsection \<open>Sample data\<close>

definition demo_config :: config where
  "demo_config =
     \<lparr>thresholdAmount = Fin 0, watchedWallets = Some [WString ''0xAA''],
      cooldownSeconds = Some 60\<rparr>"

definition demo_event :: "string \<Rightarrow> event" where
  "demo_event h =
     \<lparr>transactionHash = h, from_addr = ''0xAA'', to_addr = ''0xBB'', amount = Fin 5\<rparr>"

definition other_event :: "string \<Rightarrow> event" where
  "other_event h =
     \<lparr>transactionHash = h, from_addr = ''0xCC'', to_addr = ''0xDD'', amount = Fin 5\<rparr>"

text \<open>A configuration that watches every wallet, with a cooldown of two hours.\<close>

definition long_cooldown_config :: config where
  "long_cooldown_config =
     \<lparr>thresholdAmount = Fin 0, watchedWallets = Some [], cooldownSeconds = Some 7200\<rparr>"

definition mixed_wallets_config :: config where
  "mixed_wallets_config =
     \<lparr>thresholdAmount = Fin 0,
      watchedWallets = Some [WObject ''0xAA'' (Some False), WObject ''0xbb'' None, WString ''0xCC''],
      cooldownSeconds = Some 0\<rparr>"

definition demo_app :: app_state where
  "demo_app = \<lparr>afilter = new_TransferFilter demo_config, recentEvents = [], sink_calls = []\<rparr>"

definition demo_notifier :: notifier_state where
  "demo_notifier = \<lparr>isEnabled = True, bot = True, alertCount = 0, lastAlertSent = None\<rparr>"

definition network_error :: js_error where
  "network_error = \<lparr>err_message = Some ''read ECONNRESET'', err_code = Some ''EFATAL''\<rparr>"

definition api_error :: js_error where
  "api_error =
     \<lparr>err_message = Some ''400 Bad Request: chat not found'', err_code = Some ''ETELEGRAM''\<rparr>"

text \<open>A connection on which every call of \<open>bot.sendMessage\<close> is reset.\<close>

definition always_reset :: "nat \<Rightarrow> send_outcome" where
  "always_reset k = Rejected network_error"

text \<open>Network errors at the odd attempts, errors of the Telegram API at the even ones.\<close>

definition alternating_errors :: "nat \<Rightarrow> send_outcome" where
  "alternating_errors k = Rejected (if even k then api_error else network_error)"

definition valid_json_config :: json where
  "valid_json_config = JObj [(''tokenContract'', JStr ''0xabc''), (''thresholdAmount'', JNum 5)]"

definition demo_watcher :: watcher_state where
  "demo_watcher = \<lparr>wconfig = Some valid_json_config\<rparr>"

subsection \<open>Notions the properties are stated with\<close>

text \<open>Two addresses are equal case-insensitively.\<close>

definition same_address :: "string \<Rightarrow> string \<Rightarrow> bool" where
  "same_address a b = (toLowerCase a = toLowerCase b)"

text \<open>The configured watch list; a missing field is the empty list.\<close>

definition configured_wallets :: "filter_state \<Rightarrow> wallet list" where
  "configured_wallets s = (case watchedWallets (fconfig s) of None \<Rightarrow> [] | Some ws \<Rightarrow> ws)"

text \<open>The action is a delivery attempt.\<close>

fun is_send :: "notifier_action \<Rightarrow> bool" where
  "is_send (SendMessage k) = True"
| "is_send (Sleep d) = False"

section \<open>Properties of the transfer filter\<close>

lemmas filter_defs =
  TransferFilter_filter_def isDuplicate_def markProcessed_def set_add_def
  checkThreshold_def checkWatchedWallets_def checkCooldown_def in_cooldown_def
  updateCooldown_def new_TransferFilter_def Let_def

lemma lower_samples [simp]:
  "toLowerCase ''0xAA'' = ''0xaa''" "toLowerCase ''0xBB'' = ''0xbb''"
  "toLowerCase ''0xCC'' = ''0xcc''" "toLowerCase ''0xDD'' = ''0xdd''"
  "toLowerCase ''0xaa'' = ''0xaa''" "toLowerCase ''0xbb'' = ''0xbb''"
  "toLowerCase ''0xEE'' = ''0xee''"
  by (simp_all add: toLowerCase_def lower_char_def)

lemma markProcessed_member: "txHash \<in> set (processedTxHashes (markProcessed s txHash))"
  by (simp add: markProcessed_def set_add_def Let_def)

lemma updateCooldown_seen [simp]:
  "processedTxHashes (updateCooldown s now frm to) = processedTxHashes s"
  by (simp add: updateCooldown_def Let_def)

lemma updateCooldown_size [simp]:
  "maxCacheSize (updateCooldown s now frm to) = maxCacheSize s"
  by (simp add: updateCooldown_def Let_def)

lemma updateCooldown_config [simp]:
  "fconfig (updateCooldown s now frm to) = fconfig s"
  by (simp add: updateCooldown_def Let_def)

lemma markProcessed_config [simp]: "fconfig (markProcessed s h) = fconfig s"
  by (simp add: markProcessed_def Let_def)

lemma markProcessed_cooldowns [simp]: "lastAlertTime (markProcessed s h) = lastAlertTime s"
  by (simp add: markProcessed_def Let_def)

text \<open>
  An event whose hash is new never gets \<open>duplicate\<close>, and whatever the verdict, the
  seen-set after the call is the one \<open>markProcessed\<close> leaves.
\<close>

lemma filter_fresh:
  assumes "transactionHash e \<notin> set (processedTxHashes s)"
  shows "reason (snd (TransferFilter_filter s e tc tu))
           \<in> {below_threshold, not_watched, cooldown, matched}"
    and "processedTxHashes (fst (TransferFilter_filter s e tc tu)) =
           processedTxHashes (markProcessed s (transactionHash e))"
  using assms
  by (simp_all add: TransferFilter_filter_def isDuplicate_def Let_def checkThreshold_def
      checkWatchedWallets_def checkCooldown_def split: check_result.splits)

lemma filter_maxCacheSize [simp]:
  "maxCacheSize (fst (TransferFilter_filter s e tc tu)) = maxCacheSize s"
  by (simp add: TransferFilter_filter_def markProcessed_def Let_def split: check_result.splits)

lemma filter_config [simp]: "fconfig (fst (TransferFilter_filter s e tc tu)) = fconfig s"
  by (simp add: TransferFilter_filter_def Let_def split: check_result.splits)

lemma filter_all_config [simp]: "fconfig (filter_all s es) = fconfig s"
  by (induction es arbitrary: s) auto

lemma filter_seen:
  "processedTxHashes (fst (TransferFilter_filter s e tc tu)) =
     (if isDuplicate s (transactionHash e) then processedTxHashes s
      else processedTxHashes (markProcessed s (transactionHash e)))"
  by (simp add: TransferFilter_filter_def Let_def split: check_result.splits)

text \<open>The five verdicts \<open>filter\<close> can return.\<close>

lemma filter_verdict_shape:
  "snd (TransferFilter_filter s e tc tu) \<in>
     {\<lparr>passed = False, showInUI = False, reason = duplicate\<rparr>,
      \<lparr>passed = False, showInUI = True, reason = below_threshold\<rparr>,
      \<lparr>passed = False, showInUI = True, reason = not_watched\<rparr>,
      \<lparr>passed = False, showInUI = True, reason = cooldown\<rparr>,
      \<lparr>passed = True, showInUI = True, reason = matched\<rparr>}"
  by (simp add: TransferFilter_filter_def Let_def checkThreshold_def checkWatchedWallets_def
      checkCooldown_def split: check_result.splits)

lemma markProcessed_below_capacity:
  "length (processedTxHashes s) < maxCacheSize s \<Longrightarrow> txHash \<notin> set (processedTxHashes s) \<Longrightarrow>
     processedTxHashes (markProcessed s txHash) = processedTxHashes s @ [txHash]"
  by (simp add: markProcessed_def set_add_def Let_def)

lemma survives_final:
  "h \<in> set (processedTxHashes s) \<Longrightarrow> survives h s es \<Longrightarrow>
     h \<in> set (processedTxHashes (filter_all s es))"
  by (induction es arbitrary: s) (auto simp: Let_def)

text \<open>
  While the seen-set stays below its capacity nothing is evicted, so every hash in it
  survives.
\<close>

lemma survives_below_capacity:
  "h \<in> set (processedTxHashes s) \<Longrightarrow>
   length (processedTxHashes s) + length es \<le> maxCacheSize s \<Longrightarrow> survives h s es"
proof (induction es arbitrary: s)
  case Nil
  then show ?case by simp
next
  case (Cons x es)
  obtain e tc tu where x: "x = (e, tc, tu)" by (cases x) auto
  let ?s' = "fst (TransferFilter_filter s e tc tu)"
  show ?case
  proof (cases "isDuplicate s (transactionHash e)")
    case True
    then have "processedTxHashes ?s' = processedTxHashes s" by (simp add: filter_seen)
    with Cons show ?thesis by (simp add: x Let_def)
  next
    case False
    with Cons.prems have "processedTxHashes ?s' = processedTxHashes s @ [transactionHash e]"
      by (simp add: filter_seen markProcessed_below_capacity isDuplicate_def)
    with Cons show ?thesis by (simp add: x Let_def)
  qed
qed

text \<open>
  The first sample event through a new filter: it matches, and the filter then holds
  its hash and the time of the alert for both addresses.
\<close>

lemma demo_first_event:
  "snd (TransferFilter_filter (new_TransferFilter demo_config) (demo_event h) t t) =
     \<lparr>passed = True, showInUI = True, reason = matched\<rparr>"
  "processedTxHashes (fst (TransferFilter_filter (new_TransferFilter demo_config) (demo_event h) t t))
     = [h]"
  "lastAlertTime (fst (TransferFilter_filter (new_TransferFilter demo_config) (demo_event h) t t))
     ''0xaa'' = Some t"
  "lastAlertTime (fst (TransferFilter_filter (new_TransferFilter demo_config) (demo_event h) t t))
     ''0xbb'' = Some t"
  "maxCacheSize (fst (TransferFilter_filter (new_TransferFilter demo_config) (demo_event h) t t))
     = 10000"
  by (simp_all add: filter_defs demo_config_def demo_event_def)

text \<open>
  C1 (dedup idempotence). Let \<open>e1\<close> and \<open>e2\<close> carry the same transaction hash, not in
  the seen-set before \<open>e1\<close>, and let any events \<open>es\<close> pass through the filter in between
  without the hash being evicted. Then \<open>e1\<close> gets one of the verdicts \<open>matched\<close>,
  \<open>below_threshold\<close>, \<open>not_watched\<close>, \<open>cooldown\<close>, its hash is in the seen-set right
  after the call whichever of them it was, and \<open>e2\<close> gets \<open>duplicate\<close>.
\<close>

theorem dedup_idempotence:
  assumes fresh: "transactionHash e1 \<notin> set (processedTxHashes s)"
    and same: "transactionHash e2 = transactionHash e1"
    and first: "TransferFilter_filter s e1 tc1 tu1 = (s1, v1)"
    and kept: "survives (transactionHash e1) s1 es"
  shows "reason v1 \<in> {matched, below_threshold, not_watched, cooldown}
       \<and> transactionHash e1 \<in> set (processedTxHashes s1)
       \<and> TransferFilter_filter (filter_all s1 es) e2 tc2 tu2 =
           (filter_all s1 es, \<lparr>passed = False, showInUI = False, reason = duplicate\<rparr>)"
proof -
  from filter_fresh(1)[OF fresh, of tc1 tu1] first
  have r: "reason v1 \<in> {matched, below_threshold, not_watched, cooldown}" by auto
  from filter_fresh(2)[OF fresh, of tc1 tu1] first
  have m: "transactionHash e1 \<in> set (processedTxHashes s1)"
    by (simp add: markProcessed_member)
  from survives_final[OF m kept] same
  have "isDuplicate (filter_all s1 es) (transactionHash e2)"
    by (simp add: isDuplicate_def)
  then have "TransferFilter_filter (filter_all s1 es) e2 tc2 tu2 =
           (filter_all s1 es, \<lparr>passed = False, showInUI = False, reason = duplicate\<rparr>)"
    by (simp add: TransferFilter_filter_def)
  with r m show ?thesis by simp
qed

theorem dedup_idempotence_witness:
  "transactionHash (demo_event ''0x111'') \<notin> set (processedTxHashes (new_TransferFilter demo_config))
   \<and> survives ''0x111''
        (fst (TransferFilter_filter (new_TransferFilter demo_config) (demo_event ''0x111'') 1000 1000))
        [(other_event ''0x222'', 11000, 11000)]
   \<and> snd (TransferFilter_filter (new_TransferFilter demo_config) (demo_event ''0x111'') 1000 1000) =
        \<lparr>passed = True, showInUI = True, reason = matched\<rparr>
   \<and> snd (TransferFilter_filter
        (filter_all
           (fst (TransferFilter_filter (new_TransferFilter demo_config) (demo_event ''0x111'') 1000 1000))
           [(other_event ''0x222'', 11000, 11000)])
        (demo_event ''0x111'') 12000 12000) =
        \<lparr>passed = False, showInUI = False, reason = duplicate\<rparr>"
proof -
  let ?s0 = "new_TransferFilter demo_config"
  let ?e = "demo_event ''0x111''"
  let ?r = "TransferFilter_filter ?s0 ?e 1000 1000"
  let ?es = "[(other_event ''0x222'', 11000, 11000)]"
  have h1: "transactionHash ?e \<notin> set (processedTxHashes ?s0)"
    by (simp add: new_TransferFilter_def)
  have h2: "transactionHash ?e = transactionHash ?e" by simp
  have h3: "?r = (fst ?r, snd ?r)" by simp
  have cap: "maxCacheSize ?s0 = 10000" by (simp add: new_TransferFilter_def)
  have "survives ''0x111'' (fst ?r) ?es"
    by (rule survives_below_capacity) (simp_all add: demo_first_event cap)
  moreover have hash: "transactionHash ?e = ''0x111''"
    by (simp add: demo_event_def)
  ultimately have h4: "survives (transactionHash ?e) (fst ?r) ?es"
    by simp
  from dedup_idempotence [OF h1 h2 h3 h4, of 12000 12000]
  have "TransferFilter_filter (filter_all (fst ?r) ?es) ?e 12000 12000 =
          (filter_all (fst ?r) ?es, \<lparr>passed = False, showInUI = False, reason = duplicate\<rparr>)"
    by blast
  with h1 h4 show ?thesis
    by (simp add: demo_first_event hash)
qed

text \<open>
  C2 (duplicate short-circuit). When the hash of the event is already in the seen-set,
  \<open>filter\<close> returns \<open>{passed: false, showInUI: false, reason: 'duplicate'}\<close> and the
  filter is left exactly as it was: same seen-set, same cooldown map, same configuration.
  The verdict depends on nothing the later checks read.
\<close>

theorem filter_duplicate_no_effect:
  assumes "transactionHash e \<in> set (processedTxHashes s)"
  shows "TransferFilter_filter s e now_c now_u =
           (s, \<lparr>passed = False, showInUI = False, reason = duplicate\<rparr>)"
  using assms by (simp add: TransferFilter_filter_def isDuplicate_def)

theorem filter_duplicate_no_effect_witness:
  "transactionHash (demo_event ''0x111'')
     \<in> set (processedTxHashes ((new_TransferFilter demo_config)\<lparr>processedTxHashes := [''0x111'']\<rparr>))
   \<and> TransferFilter_filter ((new_TransferFilter demo_config)\<lparr>processedTxHashes := [''0x111'']\<rparr>)
        (demo_event ''0x111'') 5 5 =
       ((new_TransferFilter demo_config)\<lparr>processedTxHashes := [''0x111'']\<rparr>,
        \<lparr>passed = False, showInUI = False, reason = duplicate\<rparr>)"
  using filter_duplicate_no_effect
    [of "demo_event ''0x111''" "(new_TransferFilter demo_config)\<lparr>processedTxHashes := [''0x111'']\<rparr>" 5 5]
  by (simp add: demo_event_def new_TransferFilter_def)

text \<open>
  The scenario of the specification: a matching event, the same hash again at once, the
  same addresses ten seconds later, and again sixty-one seconds after the first.
\<close>

lemma scenario_matched_duplicate_cooldown_matched:
  "(let s0 = new_TransferFilter demo_config;
        (s1, v1) = TransferFilter_filter s0 (demo_event ''0x111'') 1000 1000;
        (s2, v2) = TransferFilter_filter s1 (demo_event ''0x111'') 1000 1000;
        (s3, v3) = TransferFilter_filter s2 (demo_event ''0x222'') 11000 11000;
        (s4, v4) = TransferFilter_filter s3 (demo_event ''0x333'') 62000 62000
    in map reason [v1, v2, v3, v4]) = [matched, duplicate, cooldown, matched]"
  by (simp add: filter_defs demo_config_def demo_event_def)

subsection \<open>The threshold check\<close>

lemma js_ge_not_lt: "a \<noteq> NaN \<Longrightarrow> b \<noteq> NaN \<Longrightarrow> js_ge a b = (\<not> js_lt a b)"
  by (cases a; cases b) auto

lemma or_zero_lt: "t \<noteq> NaN \<Longrightarrow> js_lt a (or_zero t) = js_lt a t"
  by (cases a; cases t) auto

lemma js_ge_not_NaN: "js_ge a b \<Longrightarrow> a \<noteq> NaN \<and> b \<noteq> NaN"
  by (cases a; cases b) auto

lemma js_lt_ge_trans: "js_lt a t1 \<Longrightarrow> js_ge t2 t1 \<Longrightarrow> js_lt a t2"
  by (cases a; cases t1; cases t2) auto

text \<open>
  C5 (threshold monotonicity). For a numeric amount and a numeric configured threshold
  the check passes exactly when \<open>amount >= thresholdAmount\<close>, and fails with
  \<open>below_threshold\<close> otherwise. So when the check passes under a threshold it passes
  under every lower one: raising the threshold can turn a pass into a fail and never a
  fail into a pass.
\<close>

theorem threshold_monotonicity:
  "(amt \<noteq> NaN \<and> thresholdAmount (fconfig s) \<noteq> NaN \<longrightarrow>
      checkThreshold s amt =
        (if js_ge amt (thresholdAmount (fconfig s)) then CheckPassed
         else CheckFailed below_threshold))
   \<and> (js_ge (thresholdAmount (fconfig s2)) (thresholdAmount (fconfig s1)) \<and>
        checkThreshold s2 amt = CheckPassed \<longrightarrow> checkThreshold s1 amt = CheckPassed)"
proof (intro conjI impI)
  assume "amt \<noteq> NaN \<and> thresholdAmount (fconfig s) \<noteq> NaN"
  then show "checkThreshold s amt =
        (if js_ge amt (thresholdAmount (fconfig s)) then CheckPassed
         else CheckFailed below_threshold)"
    by (simp add: checkThreshold_def or_zero_lt js_ge_not_lt)
next
  assume a: "js_ge (thresholdAmount (fconfig s2)) (thresholdAmount (fconfig s1)) \<and>
        checkThreshold s2 amt = CheckPassed"
  then have n: "thresholdAmount (fconfig s2) \<noteq> NaN" "thresholdAmount (fconfig s1) \<noteq> NaN"
    using js_ge_not_NaN by blast+
  from a n have "\<not> js_lt amt (thresholdAmount (fconfig s2))"
    by (simp add: checkThreshold_def or_zero_lt split: if_splits)
  with a have "\<not> js_lt amt (thresholdAmount (fconfig s1))"
    using js_lt_ge_trans by blast
  with n show "checkThreshold s1 amt = CheckPassed"
    by (simp add: checkThreshold_def or_zero_lt)
qed

theorem threshold_monotonicity_witness:
  "Fin 5 \<noteq> NaN \<and> thresholdAmount (fconfig (new_TransferFilter demo_config)) \<noteq> NaN
   \<and> js_ge (Fin 5) (thresholdAmount (fconfig (new_TransferFilter demo_config)))
   \<and> checkThreshold (new_TransferFilter demo_config) (Fin 5) = CheckPassed
   \<and> js_ge (thresholdAmount (fconfig (new_TransferFilter (demo_config\<lparr>thresholdAmount := Fin 3\<rparr>))))
        (thresholdAmount (fconfig (new_TransferFilter demo_config)))
   \<and> checkThreshold (new_TransferFilter (demo_config\<lparr>thresholdAmount := Fin 3\<rparr>)) (Fin 5) = CheckPassed"
  using threshold_monotonicity [of "Fin 5" "new_TransferFilter demo_config"
      "new_TransferFilter (demo_config\<lparr>thresholdAmount := Fin 3\<rparr>)" "new_TransferFilter demo_config"]
  by (simp add: new_TransferFilter_def demo_config_def checkThreshold_def)

text \<open>
  C10 (the threshold check fails open). An amount that parses to \<open>NaN\<close> passes under
  every threshold. A threshold that parses to \<open>NaN\<close> (missing or not numeric) counts as
  \<open>0\<close>: the check then fails exactly for the amounts below zero, so every amount that
  is a number \<open>>= 0\<close> passes.
\<close>

theorem threshold_fails_open:
  "checkThreshold s NaN = CheckPassed
   \<and> (thresholdAmount (fconfig s) = NaN \<longrightarrow>
        checkThreshold s amt =
          (if js_lt amt (Fin 0) then CheckFailed below_threshold else CheckPassed))
   \<and> (thresholdAmount (fconfig s) = NaN \<and> js_ge amt (Fin 0) \<longrightarrow>
        checkThreshold s amt = CheckPassed)"
proof -
  have 1: "checkThreshold s NaN = CheckPassed" by (simp add: checkThreshold_def)
  have 2: "thresholdAmount (fconfig s) = NaN \<longrightarrow>
        checkThreshold s amt =
          (if js_lt amt (Fin 0) then CheckFailed below_threshold else CheckPassed)"
    by (simp add: checkThreshold_def)
  have 3: "js_ge amt (Fin 0) \<Longrightarrow> \<not> js_lt amt (Fin 0)"
    by (cases amt) auto
  from 1 2 3 show ?thesis by auto
qed

theorem threshold_fails_open_witness:
  "thresholdAmount (fconfig (new_TransferFilter (demo_config\<lparr>thresholdAmount := NaN\<rparr>))) = NaN
   \<and> js_ge (Fin 5) (Fin 0)
   \<and> checkThreshold (new_TransferFilter (demo_config\<lparr>thresholdAmount := NaN\<rparr>)) (Fin 5) = CheckPassed
   \<and> checkThreshold (new_TransferFilter (demo_config\<lparr>thresholdAmount := Fin 1000\<rparr>)) NaN = CheckPassed"
  using threshold_fails_open [of "new_TransferFilter (demo_config\<lparr>thresholdAmount := NaN\<rparr>)" "Fin 5"]
    threshold_fails_open [of "new_TransferFilter (demo_config\<lparr>thresholdAmount := Fin 1000\<rparr>)" "Fin 5"]
  by (simp add: new_TransferFilter_def demo_config_def)

subsection \<open>The watch-list check\<close>

text \<open>
  C4 (watch-list semantics). The check passes exactly when the configured list is empty
  or one of its entries is enabled (a plain string, or an object whose \<open>enabled\<close> is
  not \<open>false\<close>) and has the address of the sender or of the receiver, compared
  case-insensitively; otherwise it fails with \<open>not_watched\<close>.
\<close>

theorem watch_list_semantics:
  "checkWatchedWallets s frm to =
     (if configured_wallets s = [] \<or>
         (\<exists>w \<in> set (configured_wallets s).
            case w of
              WString a \<Rightarrow> same_address a frm \<or> same_address a to
            | WObject a en \<Rightarrow> en \<noteq> Some False \<and> (same_address a frm \<or> same_address a to))
      then CheckPassed else CheckFailed not_watched)"
proof -
  let ?ws = "configured_wallets s"
  have member: "toLowerCase x \<in> set (map (\<lambda>w. toLowerCase (wallet_address w)) (filter wallet_enabled ?ws))
        = (\<exists>w \<in> set ?ws. case w of WString a \<Rightarrow> same_address a x
              | WObject a en \<Rightarrow> en \<noteq> Some False \<and> same_address a x)" for x
  proof -
    have "(wallet_enabled w \<and> toLowerCase x = toLowerCase (wallet_address w)) =
          (case w of WString a \<Rightarrow> same_address a x
              | WObject a en \<Rightarrow> en \<noteq> Some False \<and> same_address a x)" for w
      by (cases w) (auto simp: same_address_def)
    then show ?thesis by (auto simp: image_iff)
  qed
  show ?thesis
    unfolding checkWatchedWallets_def configured_wallets_def[symmetric] Let_def member
    by (auto split: wallet.splits)
qed

theorem watch_list_semantics_witness:
  "configured_wallets (new_TransferFilter mixed_wallets_config) \<noteq> []
   \<and> WObject ''0xbb'' None \<in> set (configured_wallets (new_TransferFilter mixed_wallets_config))
   \<and> same_address ''0xbb'' ''0xBB''
   \<and> checkWatchedWallets (new_TransferFilter mixed_wallets_config) ''0xEE'' ''0xBB'' = CheckPassed
   \<and> checkWatchedWallets (new_TransferFilter mixed_wallets_config) ''0xAA'' ''0xEE''
        = CheckFailed not_watched
   \<and> checkWatchedWallets (new_TransferFilter (mixed_wallets_config\<lparr>watchedWallets := Some []\<rparr>))
        ''0xAA'' ''0xEE'' = CheckPassed"
  using watch_list_semantics [of "new_TransferFilter mixed_wallets_config" "''0xEE''" "''0xBB''"]
    watch_list_semantics [of "new_TransferFilter mixed_wallets_config" "''0xAA''" "''0xEE''"]
    watch_list_semantics [of "new_TransferFilter (mixed_wallets_config\<lparr>watchedWallets := Some []\<rparr>)"
      "''0xAA''" "''0xEE''"]
  by (simp add: configured_wallets_def new_TransferFilter_def mixed_wallets_config_def
      same_address_def)

subsection \<open>The cooldown check\<close>

lemma updateCooldown_sets:
  "lastAlertTime (updateCooldown s now frm to) (toLowerCase frm) = Some now"
  "lastAlertTime (updateCooldown s now frm to) (toLowerCase to) = Some now"
  by (simp_all add: updateCooldown_def Let_def)

text \<open>A verdict with \<open>passed = true\<close> comes from the last branch of \<open>filter\<close> only.\<close>

lemma filter_passed:
  assumes "TransferFilter_filter s e tc tu = (s1, v)" "passed v"
  shows "s1 = updateCooldown (markProcessed s (transactionHash e)) tu (from_addr e) (to_addr e)"
    and "reason v = matched"
  using assms
  by (auto simp: TransferFilter_filter_def Let_def split: if_splits check_result.splits)

text \<open>
  C3 (cooldown boundary) does not hold of the code when the cooldown is longer than the
  hour after which \<open>updateCooldown\<close> deletes entries. With a cooldown of 7200 seconds,
  \<open>0xAA\<close> alerts at time 1000000; an event between two other wallets passes at 4700000,
  more than an hour later, and deletes the entry of \<open>0xAA\<close>; at 4800000, which is 3800
  seconds after its alert and so within its cooldown, \<open>0xAA\<close> passes the cooldown check
  and alerts again.
\<close>

theorem cooldown_entry_pruned_within_cooldown:
  "snd (TransferFilter_filter (new_TransferFilter long_cooldown_config) (demo_event ''0x111'')
          1000000 1000000) = \<lparr>passed = True, showInUI = True, reason = matched\<rparr>
   \<and> (4800000::int) - 1000000 < 7200 * 1000
   \<and> snd (TransferFilter_filter
        (filter_all
          (fst (TransferFilter_filter (new_TransferFilter long_cooldown_config) (demo_event ''0x111'')
                  1000000 1000000))
          [(other_event ''0x222'', 4700000, 4700000)])
        (demo_event ''0x333'') 4800000 4800000) = \<lparr>passed = True, showInUI = True, reason = matched\<rparr>"
  by (simp add: filter_defs long_cooldown_config_def demo_event_def other_event_def)

text \<open>
  What does hold of the cooldown. Let the cooldown be \<open>c > 0\<close> seconds and let an event
  involving \<open>A\<close> pass all checks at clock reading \<open>T\<close>, which is not zero. The pass sets
  the cooldown timestamps of its sender and of its receiver to \<open>T\<close>. Let the events
  \<open>es\<close> follow and leave the timestamp of \<open>A\<close> at \<open>T\<close> (it is neither deleted as older
  than an hour nor renewed). Then at time \<open>T'\<close> an event whose sender or receiver is
  \<open>A\<close>, compared case-insensitively, fails the cooldown check with \<open>cooldown\<close> when
  \<open>T' - T < 1000 c\<close>; when \<open>T' - T >= 1000 c\<close> the address \<open>A\<close> is not on cooldown, an
  event between \<open>A\<close> and itself passes the check, and right after the pass so does an
  event between the same two addresses.
\<close>

lemma cooldown_holds_while_entry_kept:
  assumes pass: "TransferFilter_filter s e tc T = (s1, v)" "passed v"
    and c: "c = int_or_zero (cooldownSeconds (fconfig s))" "0 < c"
    and T: "T \<noteq> 0"
    and A: "same_address A (from_addr e) \<or> same_address A (to_addr e)"
    and kept: "lastAlertTime (filter_all s1 es) (toLowerCase A) = Some T"
    and inv: "same_address frm A \<or> same_address to A"
  shows "lastAlertTime s1 (toLowerCase (from_addr e)) = Some T
       \<and> lastAlertTime s1 (toLowerCase (to_addr e)) = Some T
       \<and> (T' - T < c * 1000 \<longrightarrow> checkCooldown (filter_all s1 es) T' frm to = CheckFailed cooldown)
       \<and> (T' - T \<ge> c * 1000 \<longrightarrow>
            \<not> in_cooldown (filter_all s1 es) T' (c * 1000) (toLowerCase A)
            \<and> checkCooldown (filter_all s1 es) T' A A = CheckPassed
            \<and> checkCooldown s1 T' (from_addr e) (to_addr e) = CheckPassed)"
proof -
  let ?s2 = "filter_all s1 es"
  from filter_passed(1)[OF pass]
  have s1: "s1 = updateCooldown (markProcessed s (transactionHash e)) T (from_addr e) (to_addr e)" .
  then have stamped: "lastAlertTime s1 (toLowerCase (from_addr e)) = Some T"
      "lastAlertTime s1 (toLowerCase (to_addr e)) = Some T"
    by (simp_all add: updateCooldown_sets)
  have cfg: "fconfig ?s2 = fconfig s"
    using s1 by simp
  have blocked: "in_cooldown ?s2 T' (c * 1000) (toLowerCase A) = (T' - T < c * 1000)"
    using kept T by (simp add: in_cooldown_def)
  have early: "T' - T < c * 1000 \<longrightarrow> checkCooldown ?s2 T' frm to = CheckFailed cooldown"
    using inv blocked c cfg
    by (auto simp: checkCooldown_def Let_def same_address_def)
  have late: "T' - T \<ge> c * 1000 \<longrightarrow>
            \<not> in_cooldown ?s2 T' (c * 1000) (toLowerCase A)
            \<and> checkCooldown ?s2 T' A A = CheckPassed"
    using blocked c cfg by (auto simp: checkCooldown_def Let_def)
  have "fconfig s1 = fconfig s"
    using s1 by simp
  with stamped c
  have again: "T' - T \<ge> c * 1000 \<longrightarrow> checkCooldown s1 T' (from_addr e) (to_addr e) = CheckPassed"
    by (auto simp: checkCooldown_def in_cooldown_def Let_def)
  from stamped early late again show ?thesis by blast
qed

lemma cooldown_holds_while_entry_kept_example:
  "snd (TransferFilter_filter (new_TransferFilter demo_config) (demo_event ''0x111'') 1000 1000)
      = \<lparr>passed = True, showInUI = True, reason = matched\<rparr>
   \<and> (0::int) < int_or_zero (cooldownSeconds (fconfig (new_TransferFilter demo_config)))
   \<and> same_address ''0xaa'' (from_addr (demo_event ''0x111''))
   \<and> same_address ''0xAA'' ''0xaa''
   \<and> checkCooldown
        (fst (TransferFilter_filter (new_TransferFilter demo_config) (demo_event ''0x111'') 1000 1000))
        60999 ''0xAA'' ''0xEE'' = CheckFailed cooldown
   \<and> checkCooldown
        (fst (TransferFilter_filter (new_TransferFilter demo_config) (demo_event ''0x111'') 1000 1000))
        61000 ''0xaa'' ''0xaa'' = CheckPassed"
proof -
  let ?s0 = "new_TransferFilter demo_config"
  let ?e = "demo_event ''0x111''"
  let ?r = "TransferFilter_filter ?s0 ?e 1000 1000"
  have v: "snd ?r = \<lparr>passed = True, showInUI = True, reason = matched\<rparr>"
    by (rule demo_first_event(1))
  have h1: "?r = (fst ?r, snd ?r)" by simp
  have h2: "passed (snd ?r)" by (simp add: v)
  have h3: "(60::int) = int_or_zero (cooldownSeconds (fconfig ?s0))"
    by (simp add: new_TransferFilter_def demo_config_def)
  have h4: "(0::int) < 60" by simp
  have h5: "(1000::int) \<noteq> 0" by simp
  have h6: "same_address ''0xaa'' (from_addr ?e) \<or> same_address ''0xaa'' (to_addr ?e)"
    by (simp add: same_address_def demo_event_def)
  have h7: "lastAlertTime (filter_all (fst ?r) []) (toLowerCase ''0xaa'') = Some 1000"
    by (simp add: demo_first_event)
  have h8: "same_address ''0xAA'' ''0xaa'' \<or> same_address ''0xEE'' ''0xaa''"
    by (simp add: same_address_def)
  from cooldown_holds_while_entry_kept [OF h1 h2 h3 h4 h5 h6 h7 h8, of 60999]
  have early: "checkCooldown (fst ?r) 60999 ''0xAA'' ''0xEE'' = CheckFailed cooldown" by simp
  from cooldown_holds_while_entry_kept [OF h1 h2 h3 h4 h5 h6 h7 h8, of 61000]
  have late: "checkCooldown (fst ?r) 61000 ''0xaa'' ''0xaa'' = CheckPassed" by simp
  have "same_address ''0xaa'' (from_addr ?e)" "same_address ''0xAA'' ''0xaa''"
    by (simp_all add: same_address_def demo_event_def)
  with v h3 early late show ?thesis
    by simp
qed

section \<open>Properties of the transfer handler\<close>

text \<open>
  C9 (dispatch only on a pass). Whatever the verdict, the handler keeps the filter as
  \<open>filter\<close> left it. When the verdict has \<open>passed = false\<close> the in-memory list and the
  calls on storage, live feed and notifier are what they were: the event reaches no
  sink. The verdicts \<open>below_threshold\<close>, \<open>not_watched\<close> and \<open>cooldown\<close> are of that kind
  although they carry \<open>showInUI = true\<close>. When the verdict has \<open>passed = true\<close> the event
  is the newest of the in-memory list and storage, live feed and notifier are called
  with it, in that order.
\<close>

theorem dispatch_only_when_passed:
  assumes f: "TransferFilter_filter (afilter a) e now_c now_u = (f', v)"
  shows "(\<not> passed v \<longrightarrow>
            recentEvents (transfer_handler a e now_c now_u alert_ok) = recentEvents a
          \<and> sink_calls (transfer_handler a e now_c now_u alert_ok) = sink_calls a)
       \<and> (reason v \<in> {below_threshold, not_watched, cooldown} \<longrightarrow> \<not> passed v \<and> showInUI v)
       \<and> (passed v \<longrightarrow>
            last (recentEvents (transfer_handler a e now_c now_u alert_ok)) = e
          \<and> sink_calls (transfer_handler a e now_c now_u alert_ok) =
              sink_calls a @ [StorageAdd e, BroadcastTransfer e v, SendAlert e]
                @ (if alert_ok then [BroadcastAlertSent (transactionHash e)] else []))
       \<and> afilter (transfer_handler a e now_c now_u alert_ok) = f'"
proof -
  from filter_verdict_shape[of "afilter a" e now_c now_u] f
  have shape: "v \<in>
     {\<lparr>passed = False, showInUI = False, reason = duplicate\<rparr>,
      \<lparr>passed = False, showInUI = True, reason = below_threshold\<rparr>,
      \<lparr>passed = False, showInUI = True, reason = not_watched\<rparr>,
      \<lparr>passed = False, showInUI = True, reason = cooldown\<rparr>,
      \<lparr>passed = True, showInUI = True, reason = matched\<rparr>}" by simp
  have newest:
    "last (if length (xs @ [e]) > MAX_RECENT_EVENTS then tl (xs @ [e]) else xs @ [e]) = e" for xs
    by (cases xs) (auto simp: MAX_RECENT_EVENTS_def)
  from shape show ?thesis
    using f newest[of "recentEvents a"]
    by (auto simp: transfer_handler_def Let_def)
qed

lemma demo_not_watched:
  "snd (TransferFilter_filter (new_TransferFilter demo_config) (other_event h) t t) =
     \<lparr>passed = False, showInUI = True, reason = not_watched\<rparr>"
  by (simp add: filter_defs demo_config_def other_event_def)

theorem dispatch_only_when_passed_witness:
  "reason (snd (TransferFilter_filter (afilter demo_app) (other_event ''0x222'') 1000 1000))
      \<in> {below_threshold, not_watched, cooldown}
   \<and> showInUI (snd (TransferFilter_filter (afilter demo_app) (other_event ''0x222'') 1000 1000))
   \<and> recentEvents (transfer_handler demo_app (other_event ''0x222'') 1000 1000 True) = []
   \<and> sink_calls (transfer_handler demo_app (other_event ''0x222'') 1000 1000 True) = []
   \<and> passed (snd (TransferFilter_filter (afilter demo_app) (demo_event ''0x111'') 1000 1000))
   \<and> sink_calls (transfer_handler demo_app (demo_event ''0x111'') 1000 1000 True) =
       [StorageAdd (demo_event ''0x111''),
        BroadcastTransfer (demo_event ''0x111'')
          \<lparr>passed = True, showInUI = True, reason = matched\<rparr>,
        SendAlert (demo_event ''0x111''),
        BroadcastAlertSent ''0x111'']"
proof -
  let ?f = "afilter demo_app"
  let ?o = "TransferFilter_filter ?f (other_event ''0x222'') 1000 1000"
  let ?d = "TransferFilter_filter ?f (demo_event ''0x111'') 1000 1000"
  have fa: "?f = new_TransferFilter demo_config" by (simp add: demo_app_def)
  have vo: "snd ?o = \<lparr>passed = False, showInUI = True, reason = not_watched\<rparr>"
    unfolding fa by (rule demo_not_watched)
  have vd: "snd ?d = \<lparr>passed = True, showInUI = True, reason = matched\<rparr>"
    unfolding fa by (rule demo_first_event(1))
  have ho: "?o = (fst ?o, snd ?o)" and hd: "?d = (fst ?d, snd ?d)" by simp_all
  have empty: "recentEvents demo_app = []" "sink_calls demo_app = []"
    by (simp_all add: demo_app_def)
  have hash: "transactionHash (demo_event ''0x111'') = ''0x111''"
    by (simp add: demo_event_def)
  from dispatch_only_when_passed [OF ho, of True] dispatch_only_when_passed [OF hd, of True]
  show ?thesis
    by (simp add: vo vd empty hash)
qed

section \<open>Properties of the listener\<close>

lemma failure_step:
  assumes "is_failure ev"
  shows "maxReconnectAttempts (fst (listener_step s ev)) = maxReconnectAttempts s"
    and "reconnectDelay (fst (listener_step s ev)) = reconnectDelay s"
    and "reconnectAttempts (fst (listener_step s ev)) =
           (if reconnectAttempts s < maxReconnectAttempts s then reconnectAttempts s + 1
            else reconnectAttempts s)"
    and "tl (snd (listener_step s ev)) =
           (if reconnectAttempts s < maxReconnectAttempts s
            then [ScheduleReconnect (reconnectDelay s * (reconnectAttempts s + 1))]
            else [Emit StatusFailed])"
    and "hd (snd (listener_step s ev)) \<in> {Emit StatusDisconnected, Emit StatusError}"
    and "length (snd (listener_step s ev)) = 2"
  using assms
  by (cases ev; simp add: attemptReconnect_def split_def Let_def)+

text \<open>
  In a run of failures the \<open>k\<close>-th one (counted from \<open>0\<close>) meets the counter at
  \<open>reconnectAttempts s + k\<close>, capped at the maximum.
\<close>

lemma run_failures_nth:
  assumes "\<forall>ev \<in> set evs. is_failure ev" "k < length evs"
  shows "tl (snd (listener_run s evs) ! k) =
           (if reconnectAttempts s + k < maxReconnectAttempts s
            then [ScheduleReconnect (reconnectDelay s * (reconnectAttempts s + k + 1))]
            else [Emit StatusFailed])
         \<and> hd (snd (listener_run s evs) ! k) \<in> {Emit StatusDisconnected, Emit StatusError}
         \<and> length (snd (listener_run s evs) ! k) = 2"
  using assms
proof (induction evs arbitrary: s k)
  case Nil
  then show ?case by simp
next
  case (Cons ev evs)
  then have f: "is_failure ev" by simp
  show ?case
  proof (cases k)
    case 0
    with failure_step(4,5,6)[OF f, of s] show ?thesis
      by (simp add: split_def Let_def)
  next
    case (Suc j)
    with Cons.prems have j: "j < length evs" "\<forall>ev \<in> set evs. is_failure ev" by simp_all
    from Cons.IH[OF j(2) j(1), of "fst (listener_step s ev)"] failure_step(1,2,3)[OF f, of s] Suc
    show ?thesis
      by (auto simp: split_def Let_def)
  qed
qed

text \<open>
  C6 (reconnection backoff and termination), as the claim states it, is off by one.
  After exactly ten consecutive failures of \<open>connect\<close> on a new listener the tenth
  failure has scheduled one more reconnect, 50000 ms later, and no \<open>failed\<close> status has
  been emitted.
\<close>

theorem reconnect_counterexample:
  "snd (listener_run new_BlockchainListener
         [ConnectThrows, ConnectThrows, ConnectThrows, ConnectThrows, ConnectThrows,
          ConnectThrows, ConnectThrows, ConnectThrows, ConnectThrows, ConnectThrows]) ! 9
     = [Emit StatusError, ScheduleReconnect 50000]"
  by (simp add: new_BlockchainListener_def attemptReconnect_def Let_def)

text \<open>
  C6 (reconnection backoff and termination), amended. Start with the attempt counter at
  \<open>0\<close>, as it is on a new listener and after every successful connection, and let
  failures follow one another (the socket closes or \<open>connect\<close> throws) with no success
  in between. Each of the first \<open>maxReconnectAttempts\<close> failures schedules a reconnect,
  the \<open>k\<close>-th of them after \<open>reconnectDelay * k\<close> ms, and emits no \<open>failed\<close> status.
  Every later failure, so first the one after \<open>maxReconnectAttempts\<close> reconnects were
  scheduled, emits \<open>failed\<close> and schedules nothing. A successful connection sets the
  counter back to \<open>0\<close>. (In the statement failures are counted from \<open>0\<close>.)
\<close>

theorem reconnect_backoff_and_termination:
  assumes "reconnectAttempts s = 0" "\<forall>ev \<in> set evs. is_failure ev" "k < length evs"
  shows "(k < maxReconnectAttempts s \<longrightarrow>
            ScheduleReconnect (reconnectDelay s * (k + 1)) \<in> set (snd (listener_run s evs) ! k)
            \<and> Emit StatusFailed \<notin> set (snd (listener_run s evs) ! k))
       \<and> (k \<ge> maxReconnectAttempts s \<longrightarrow>
            Emit StatusFailed \<in> set (snd (listener_run s evs) ! k)
            \<and> (\<forall>d. ScheduleReconnect d \<notin> set (snd (listener_run s evs) ! k)))
       \<and> reconnectAttempts (fst (listener_step (fst (listener_run s evs)) WsOpen)) = 0"
proof -
  let ?fx = "snd (listener_run s evs) ! k"
  from run_failures_nth[OF assms(2,3), of s] assms(1)
  have t: "tl ?fx = (if k < maxReconnectAttempts s
            then [ScheduleReconnect (reconnectDelay s * (k + 1))] else [Emit StatusFailed])"
    and h: "hd ?fx \<in> {Emit StatusDisconnected, Emit StatusError}"
    and l: "length ?fx = 2" by simp_all
  from l obtain x y where xy: "?fx = [x, y]"
    by (cases ?fx; cases "tl ?fx") auto
  with t h show ?thesis by (auto split: if_splits)
qed

theorem reconnect_backoff_and_termination_witness:
  "reconnectAttempts new_BlockchainListener = 0
   \<and> list_all is_failure
        [WsClose, ConnectThrows, ConnectThrows, ConnectThrows, ConnectThrows,
         ConnectThrows, ConnectThrows, ConnectThrows, ConnectThrows, ConnectThrows,
         ConnectThrows]
   \<and> ScheduleReconnect 20000
        \<in> set (snd (listener_run new_BlockchainListener
                 [WsClose, ConnectThrows, ConnectThrows, ConnectThrows, ConnectThrows,
                  ConnectThrows, ConnectThrows, ConnectThrows, ConnectThrows, ConnectThrows,
                  ConnectThrows]) ! 3)
   \<and> Emit StatusFailed
        \<in> set (snd (listener_run new_BlockchainListener
                 [WsClose, ConnectThrows, ConnectThrows, ConnectThrows, ConnectThrows,
                  ConnectThrows, ConnectThrows, ConnectThrows, ConnectThrows, ConnectThrows,
                  ConnectThrows]) ! 10)"
proof -
  let ?evs = "[WsClose, ConnectThrows, ConnectThrows, ConnectThrows, ConnectThrows,
               ConnectThrows, ConnectThrows, ConnectThrows, ConnectThrows, ConnectThrows,
               ConnectThrows]"
  have h1: "reconnectAttempts new_BlockchainListener = 0"
    by (simp add: new_BlockchainListener_def)
  have h2: "\<forall>ev \<in> set ?evs. is_failure ev" by simp
  have h3: "3 < length ?evs" and h4: "10 < length ?evs" by simp_all
  have bounds: "maxReconnectAttempts new_BlockchainListener = 10"
    "reconnectDelay new_BlockchainListener = 5000"
    by (simp_all add: new_BlockchainListener_def)
  from reconnect_backoff_and_termination [OF h1 h2 h3]
    reconnect_backoff_and_termination [OF h1 h2 h4] h1 h2
  show ?thesis
    by (simp add: bounds)
qed

section \<open>Properties of the config watcher\<close>

lemma validateConfig_fails:
  "reload_fails (Parsed c) \<Longrightarrow> \<exists>err. validateConfig c = Inl err"
  by (auto simp: validateConfig_def required_def Let_def split: option.splits)

lemma validateConfig_succeeds:
  "\<not> reload_fails (Parsed c) \<Longrightarrow> \<exists>c'. validateConfig c = Inr c'"
  by (cases c) (auto simp: validateConfig_def required_def Let_def split: option.splits)

text \<open>A reload that does not fail stores and returns the validated configuration.\<close>

lemma loadConfig_success:
  assumes "\<not> reload_fails f"
  shows "\<exists>c'. loadConfig w f = (w\<lparr>wconfig := Some c'\<rparr>, Some c')"
proof (cases f)
  case (Parsed c)
  with assms obtain c' where "validateConfig c = Inr c'"
    using validateConfig_succeeds by blast
  with Parsed show ?thesis by (simp add: loadConfig_def)
qed (use assms in simp_all)

text \<open>
  C7 (config reload on error), as the claim states it, fails for a missing file: with a
  valid configuration stored, \<open>loadConfig\<close> returns \<open>null\<close>, not the stored configuration.
\<close>

theorem config_reload_counterexample:
  "reload_fails NotFound
   \<and> wconfig demo_watcher = Some valid_json_config
   \<and> snd (loadConfig demo_watcher NotFound) = None"
  by (simp add: loadConfig_def demo_watcher_def)

text \<open>
  C7 (config reload on error), amended. When the reload fails (the file is missing, it
  does not parse, or \<open>tokenContract\<close> is absent or falsy) the stored configuration is
  unchanged. \<open>loadConfig\<close> returns the stored configuration when the file does not parse
  or is invalid, and \<open>null\<close> when the file is missing. What \<open>handleConfigChange\<close> hands to
  the filter, the listener and the notifier is then the stored configuration or nothing:
  no part of the rejected file.
\<close>

theorem config_reload_failure_keeps_config:
  assumes "reload_fails f"
  shows "fst (loadConfig w f) = w
       \<and> snd (loadConfig w f) = (if f = NotFound then None else wconfig w)
       \<and> fst (handleConfigChange w f) = w
       \<and> snd (handleConfigChange w f) = (if f = NotFound then None else wconfig w)"
proof (cases f)
  case NotFound
  then show ?thesis by (simp add: loadConfig_def handleConfigChange_def)
next
  case Unparseable
  then show ?thesis by (simp add: loadConfig_def handleConfigChange_def split: option.splits)
next
  case (Parsed c)
  with assms obtain err where "validateConfig c = Inl err"
    using validateConfig_fails by blast
  with Parsed show ?thesis
    by (simp add: loadConfig_def handleConfigChange_def split: option.splits)
qed

theorem config_reload_failure_keeps_config_witness:
  "reload_fails (Parsed (JObj [(''thresholdAmount'', JNum 9)]))
   \<and> loadConfig demo_watcher (Parsed (JObj [(''thresholdAmount'', JNum 9)]))
       = (demo_watcher, wconfig demo_watcher)
   \<and> handleConfigChange demo_watcher (Parsed (JObj [(''thresholdAmount'', JNum 9)]))
       = (demo_watcher, wconfig demo_watcher)"
  using config_reload_failure_keeps_config
    [of "Parsed (JObj [(''thresholdAmount'', JNum 9)])" demo_watcher]
  by (simp add: prod_eq_iff)

section \<open>Properties of the notifier\<close>

declare sendAlert_loop.simps [simp del]

text \<open>The loop calls \<open>bot.sendMessage\<close> at most once per remaining attempt.\<close>

lemma loop_sends_bound:
  "length (filter is_send (snd (sendAlert_loop send retries attempt acts)))
     \<le> length (filter is_send acts) + (Suc retries - attempt)"
proof (induction send retries attempt acts rule: sendAlert_loop.induct)
  case (1 send retries attempt acts)
  show ?case
  proof (cases "attempt \<le> retries")
    case False
    then show ?thesis by (simp add: sendAlert_loop.simps[of send retries attempt acts])
  next
    case True
    show ?thesis
    proof (cases "send attempt")
      case Delivered
      with True show ?thesis by (simp add: sendAlert_loop.simps[of send retries attempt acts])
    next
      case (Rejected err)
      from "1.IH"[OF True Rejected] True Rejected show ?thesis
        by (simp add: sendAlert_loop.simps[of send retries attempt acts] split: if_splits)
    qed
  qed
qed

lemma retry_delay_strict: "1 \<le> a \<Longrightarrow> a < b \<Longrightarrow> retry_delay nw a < retry_delay nw b"
  by (auto simp: retry_delay_def)

lemma retry_delay_network: "1 \<le> a \<Longrightarrow> retry_delay True a = 2 * retry_delay False a"
  by (cases a) (simp_all add: retry_delay_def)

lemma loop_exhausted_5:
  assumes "\<forall>k \<in> {1..5}. send k = Rejected (err k)"
  shows "sendAlert_loop send 5 1 [] =
     (False,
      [SendMessage 1, Sleep (retry_delay (isNetworkError (errorMsg (err 1))) 1),
       SendMessage 2, Sleep (retry_delay (isNetworkError (errorMsg (err 2))) 2),
       SendMessage 3, Sleep (retry_delay (isNetworkError (errorMsg (err 3))) 3),
       SendMessage 4, Sleep (retry_delay (isNetworkError (errorMsg (err 4))) 4),
       SendMessage 5])"
proof -
  from assms have s: "send 1 = Rejected (err 1)" "send 2 = Rejected (err 2)"
    "send 3 = Rejected (err 3)" "send 4 = Rejected (err 4)" "send 5 = Rejected (err 5)"
    by simp_all
  have l6: "sendAlert_loop send 5 6 acts = (False, acts)" for acts
    by (subst sendAlert_loop.simps) simp
  have l5: "sendAlert_loop send 5 5 acts = (False, acts @ [SendMessage 5])" for acts
    by (subst sendAlert_loop.simps) (simp add: s l6)
  have l4: "sendAlert_loop send 5 4 acts =
      (False, acts @ [SendMessage 4, Sleep (retry_delay (isNetworkError (errorMsg (err 4))) 4),
                      SendMessage 5])" for acts
    by (subst sendAlert_loop.simps) (simp add: s l5)
  have l3: "sendAlert_loop send 5 3 acts =
      (False, acts @ [SendMessage 3, Sleep (retry_delay (isNetworkError (errorMsg (err 3))) 3),
                      SendMessage 4, Sleep (retry_delay (isNetworkError (errorMsg (err 4))) 4),
                      SendMessage 5])" for acts
    by (subst sendAlert_loop.simps) (simp add: s l4)
  have l2: "sendAlert_loop send 5 2 acts =
      (False, acts @ [SendMessage 2, Sleep (retry_delay (isNetworkError (errorMsg (err 2))) 2),
                      SendMessage 3, Sleep (retry_delay (isNetworkError (errorMsg (err 3))) 3),
                      SendMessage 4, Sleep (retry_delay (isNetworkError (errorMsg (err 4))) 4),
                      SendMessage 5])" for acts
    by (subst sendAlert_loop.simps) (simp add: s l3)
  from s(1) have s1: "send (Suc 0) = Rejected (err (Suc 0))" by simp
  have two: "Suc (Suc 0) = 2" by simp
  show ?thesis
    by (subst sendAlert_loop.simps) (simp add: s1 two l2)
qed

text \<open>\<open>str_includes\<close> is the contiguous-sublist relation of the list library.\<close>

lemma str_includes_sublist: "str_includes s pat = sublist pat s"
  by (induction s) (simp_all add: sublist_Cons_right)

text \<open>
  Across attempts the wait never shrinks, whatever the classes of the two errors, but
  it can stay the same: a network error at attempt \<open>a\<close> and another error at attempt
  \<open>a + 1\<close> both wait \<open>2 ^ a\<close> seconds.
\<close>

lemma retry_delay_mono: "1 \<le> a \<Longrightarrow> a < b \<Longrightarrow> retry_delay nw a \<le> retry_delay nw' b"
proof -
  assume a: "1 \<le> a" "a < b"
  then have "(2::nat) ^ a \<le> 2 ^ (b - 1)" "(2::nat) ^ (a - 1) \<le> 2 ^ (b - 1)"
    "(2::nat) ^ (a - 1) \<le> 2 ^ b" "(2::nat) ^ a \<le> 2 ^ b"
    by (simp_all add: power_increasing)
  then show ?thesis by (simp add: retry_delay_def)
qed

lemma sample_error_classes [simp]:
  "isNetworkError (errorMsg network_error)" "\<not> isNetworkError (errorMsg api_error)"
  by (simp_all add: isNetworkError_def errorMsg_def network_error_def api_error_def)

text \<open>
  C8 (notifier retry policy), as the claim states it, fails when the class of the error
  changes between attempts: the wait does not strictly increase with the attempt
  number. When a network error, another error, a network error and another error
  follow one another, the waits after attempts 1 to 4 are 2000, 2000, 8000 and 8000 ms.
\<close>

theorem notifier_retry_counterexample:
  "sendAlert demo_notifier (demo_event ''0x111'') 1000 alternating_errors default_retries =
     (demo_notifier, AlertFailure ''max_retries_exceeded'',
      [SendMessage 1, Sleep 2000, SendMessage 2, Sleep 2000, SendMessage 3, Sleep 8000,
       SendMessage 4, Sleep 8000, SendMessage 5])
   \<and> \<not> retry_delay (isNetworkError (errorMsg network_error)) 1
         < retry_delay (isNetworkError (errorMsg api_error)) 2"
proof -
  have "\<forall>k \<in> {1..5}. alternating_errors k
          = Rejected ((\<lambda>k. if even k then api_error else network_error) k)"
    by (simp add: alternating_errors_def)
  from loop_exhausted_5[OF this] show ?thesis
    by (simp add: sendAlert_def default_retries_def demo_notifier_def retry_delay_def)
qed

text \<open>
  C8 (notifier retry policy), amended. With the default of five retries \<open>sendAlert\<close>
  calls \<open>bot.sendMessage\<close> at most five times. The text of an error is its message, else
  its code, else \<open>Unknown error\<close>, and the error is of the network class exactly when
  that text contains \<open>ECONNRESET\<close>, \<open>ETIMEDOUT\<close>, \<open>ENOTFOUND\<close>, \<open>socket hang up\<close> or
  \<open>network\<close>. The wait after a failed attempt grows strictly with the attempt number
  for errors of one class; between errors of different classes it never shrinks (it can
  repeat); for a network-class error it is exactly twice the wait for another error at
  the same attempt. When all five attempts are rejected, \<open>sendAlert\<close> returns
  \<open>{success: false, reason: 'max_retries_exceeded'}\<close> after five calls with a wait after
  each but the last, and the notifier is as it was before the call: nothing is kept for
  a later retry.
\<close>

theorem notifier_retry_policy:
  "length (filter is_send (snd (snd (sendAlert n e now send default_retries)))) \<le> 5
   \<and> errorMsg er =
        (case err_message er of
           Some m \<Rightarrow> if m \<noteq> [] then m
                     else (case err_code er of
                             Some c \<Rightarrow> if c \<noteq> [] then c else ''Unknown error''
                           | None \<Rightarrow> ''Unknown error'')
         | None \<Rightarrow> (case err_code er of
                      Some c \<Rightarrow> if c \<noteq> [] then c else ''Unknown error''
                    | None \<Rightarrow> ''Unknown error''))
   \<and> isNetworkError msg =
        (sublist ''ECONNRESET'' msg \<or> sublist ''ETIMEDOUT'' msg \<or> sublist ''ENOTFOUND'' msg
         \<or> sublist ''socket hang up'' msg \<or> sublist ''network'' msg)
   \<and> (\<forall>a b. 1 \<le> a \<and> a < b \<longrightarrow> retry_delay nw a < retry_delay nw b)
   \<and> (\<forall>a b. 1 \<le> a \<and> a < b \<longrightarrow> retry_delay nw a \<le> retry_delay nw' b)
   \<and> (\<forall>a. 1 \<le> a \<longrightarrow> retry_delay True a = 2 * retry_delay False a)
   \<and> (isEnabled n \<and> bot n \<and> (\<forall>k \<in> {1..5}. send k = Rejected (err k)) \<longrightarrow>
        sendAlert n e now send default_retries =
          (n, AlertFailure ''max_retries_exceeded'',
           [SendMessage 1, Sleep (retry_delay (isNetworkError (errorMsg (err 1))) 1),
            SendMessage 2, Sleep (retry_delay (isNetworkError (errorMsg (err 2))) 2),
            SendMessage 3, Sleep (retry_delay (isNetworkError (errorMsg (err 3))) 3),
            SendMessage 4, Sleep (retry_delay (isNetworkError (errorMsg (err 4))) 4),
            SendMessage 5]))"
proof -
  have bound: "length (filter is_send (snd (snd (sendAlert n e now send default_retries)))) \<le> 5"
    using loop_sends_bound[of send 5 1 "[]"]
    by (auto simp: sendAlert_def default_retries_def split: prod.splits bool.splits)
  have text_of: "errorMsg er =
        (case err_message er of
           Some m \<Rightarrow> if m \<noteq> [] then m
                     else (case err_code er of
                             Some c \<Rightarrow> if c \<noteq> [] then c else ''Unknown error''
                           | None \<Rightarrow> ''Unknown error'')
         | None \<Rightarrow> (case err_code er of
                      Some c \<Rightarrow> if c \<noteq> [] then c else ''Unknown error''
                    | None \<Rightarrow> ''Unknown error''))"
    by (simp add: errorMsg_def split: option.splits)
  have cls: "isNetworkError msg =
        (sublist ''ECONNRESET'' msg \<or> sublist ''ETIMEDOUT'' msg \<or> sublist ''ENOTFOUND'' msg
         \<or> sublist ''socket hang up'' msg \<or> sublist ''network'' msg)"
    by (simp only: isNetworkError_def str_includes_sublist)
  have exhausted: "isEnabled n \<and> bot n \<and> (\<forall>k \<in> {1..5}. send k = Rejected (err k)) \<longrightarrow>
        sendAlert n e now send default_retries =
          (n, AlertFailure ''max_retries_exceeded'',
           [SendMessage 1, Sleep (retry_delay (isNetworkError (errorMsg (err 1))) 1),
            SendMessage 2, Sleep (retry_delay (isNetworkError (errorMsg (err 2))) 2),
            SendMessage 3, Sleep (retry_delay (isNetworkError (errorMsg (err 3))) 3),
            SendMessage 4, Sleep (retry_delay (isNetworkError (errorMsg (err 4))) 4),
            SendMessage 5])"
    using loop_exhausted_5[of send err]
    by (simp add: sendAlert_def default_retries_def)
  have strict: "\<forall>a b. 1 \<le> a \<and> a < b \<longrightarrow> retry_delay nw a < retry_delay nw b"
    using retry_delay_strict by blast
  have mono: "\<forall>a b. 1 \<le> a \<and> a < b \<longrightarrow> retry_delay nw a \<le> retry_delay nw' b"
    using retry_delay_mono by blast
  have twice: "\<forall>a. 1 \<le> a \<longrightarrow> retry_delay True a = 2 * retry_delay False a"
    using retry_delay_network by blast
  show ?thesis
    by (intro conjI; (rule bound text_of cls strict mono twice exhausted))
qed

theorem notifier_retry_policy_witness:
  "isEnabled demo_notifier \<and> bot demo_notifier
   \<and> sendAlert demo_notifier (demo_event ''0x111'') 1000 always_reset default_retries =
       (demo_notifier, AlertFailure ''max_retries_exceeded'',
        [SendMessage 1, Sleep 2000, SendMessage 2, Sleep 4000, SendMessage 3, Sleep 8000,
         SendMessage 4, Sleep 16000, SendMessage 5])
   \<and> errorMsg network_error = ''read ECONNRESET''
   \<and> isNetworkError ''read ECONNRESET''
   \<and> (1::nat) \<le> 3 \<and> (3::nat) < 4 \<and> retry_delay False 3 = 4000 \<and> retry_delay False 4 = 8000
   \<and> retry_delay True 3 = 8000"
proof -
  have rejected: "\<forall>k \<in> {1..5}. always_reset k = Rejected ((\<lambda>k. network_error) k)"
    by (simp add: always_reset_def)
  have on: "isEnabled demo_notifier \<and> bot demo_notifier"
    by (simp add: demo_notifier_def)
  from notifier_retry_policy
    [of demo_notifier "demo_event ''0x111''" 1000 always_reset network_error "''read ECONNRESET''"
        False True "\<lambda>k. network_error"] on rejected
  have run: "sendAlert demo_notifier (demo_event ''0x111'') 1000 always_reset default_retries =
       (demo_notifier, AlertFailure ''max_retries_exceeded'',
        [SendMessage 1, Sleep 2000, SendMessage 2, Sleep 4000, SendMessage 3, Sleep 8000,
         SendMessage 4, Sleep 16000, SendMessage 5])"
    by (simp add: retry_delay_def)
  have "errorMsg network_error = ''read ECONNRESET''"
    by (simp add: errorMsg_def network_error_def)
  moreover have "isNetworkError ''read ECONNRESET''"
    by (simp add: isNetworkError_def)
  ultimately show ?thesis using on run
    by (simp add: retry_delay_def)
qed

end
